theory Spec2Isabelle
  imports Complex_Main "HOL-Library.AList"
begin

section \<open>Data model of \<open>pdfmaker.Document\<close>\<close>

text \<open>
  Python numbers are modelled as exact reals, Python dictionaries as association lists in
  insertion order (\<open>AList.update\<close> overwrites in place or appends, as a Python dict does),
  and the reportlab canvas as the chronological list of the operations issued on it.
\<close>

type_synonym color = "real \<times> real \<times> real"

record ParagraphStyle =
  style_name :: string
  fontName :: string
  fontSize :: real
  alignment :: int
  leading :: real
  textColor :: color

text \<open>The dictionaries stored in \<open>table_style_list\<close>.\<close>

record table_style_dict =
  header :: bool
  t_fontName :: string
  t_fontSize :: real
  t_textColor :: color
  backgroundColor :: color
  gridColor :: color
  gridSize :: real
  headerColor :: color
  headerTextColor :: color

text \<open>The dictionaries stored in \<open>template_images\<close>.\<close>

record template_image =
  i_file :: string
  i_size_proportions :: real
  i_width :: real
  i_height :: real
  i_posx :: real
  i_posy :: real
  i_axisx :: string
  i_axisy :: string

datatype paragraph_obj = Paragraph string ParagraphStyle

text \<open>A table cell: the caller's value (its \<open>str\<close>), or the \<open>Paragraph\<close> that wraps it.\<close>

datatype cell = Raw string | Wrapped paragraph_obj

text \<open>
  The \<open>col_widths\<close> argument of \<open>add_table\<close>: \<open>None\<close>, the string \<open>'uniform'\<close>, a list of
  widths, or the single number that \<open>'uniform'\<close> is replaced by.
\<close>

datatype col_widths = NoWidths | Uniform | Widths "real list" | Width real

datatype canvas_op =
    DrawParagraph paragraph_obj real real
  | DrawImage string real real real real
  | DrawTable "cell list list" col_widths table_style_dict real real
  | SaveState
  | ShowPage
  | SaveFile

record document =
  name :: string
  width :: real
  height :: real
  page :: "canvas_op list"
  margin_top :: real
  margin_left :: real
  margin_right :: real
  margin_bottom :: real
  current_height :: real
  page_count :: bool
  page_number :: int
  style_list :: "(string \<times> ParagraphStyle) list"
  table_style_list :: "(string \<times> table_style_dict) list"
  template_images :: "(string \<times> template_image) list"

text \<open>
  The collaborators the engine calls: \<open>Paragraph.wrap(availWidth, availHeight)\<close>,
  \<open>PIL.Image.open(file).size\<close> (\<open>None\<close> when it raises \<open>IOError\<close>),
  \<open>Table(rows, colWidths).wrapOn\<close> under a table style, and \<open>str\<close> of a cell that is
  already a \<open>Paragraph\<close> object.
\<close>

record env =
  wrap_paragraph :: "paragraph_obj \<Rightarrow> real \<Rightarrow> real \<Rightarrow> real \<times> real"
  image_size :: "string \<Rightarrow> (real \<times> real) option"
  wrap_table :: "cell list list \<Rightarrow> col_widths \<Rightarrow> table_style_dict \<Rightarrow> real \<times> real"
  str_paragraph :: "paragraph_obj \<Rightarrow> string"

text \<open>
  A Python exception leaves every mutation made before it in place, so a raised error
  carries the state at the moment it is raised. \<open>OutOfFuel\<close> stands for a computation that
  is still running when its fuel (loop iterations and nested calls) is used up.
\<close>

datatype error =
    ValueError | KeyError | FileNotFoundError | IndexError | ZeroDivisionError | OutOfFuel

datatype 'a result = Ok 'a | Raise error 'a

fun state_of :: "'a result \<Rightarrow> 'a" where
  "state_of (Ok s) = s"
| "state_of (Raise e s) = s"

fun is_ok :: "'a result \<Rightarrow> bool" where
  "is_ok (Ok s) = True"
| "is_ok (Raise e s) = False"

fun and_then :: "'a result \<Rightarrow> ('a \<Rightarrow> 'a result) \<Rightarrow> 'a result" where
  "and_then (Ok s) f = f s"
| "and_then (Raise e s) f = Raise e s"

fun for_each :: "('x \<Rightarrow> 'a \<Rightarrow> 'a result) \<Rightarrow> 'x list \<Rightarrow> 'a \<Rightarrow> 'a result" where
  "for_each f [] s = Ok s"
| "for_each f (x # xs) s = and_then (f x s) (for_each f xs)"

section \<open>Strings\<close>

text \<open>\<open>s.split(c)\<close> for a one-character separator, and \<open>sep.join(ws)\<close>.\<close>

fun split_on :: "char \<Rightarrow> string \<Rightarrow> string list" where
  "split_on c [] = [[]]"
| "split_on c (x # xs) =
     (if x = c then [] # split_on c xs
      else (case split_on c xs of [] \<Rightarrow> [[x]] | w # ws \<Rightarrow> (x # w) # ws))"

fun join_with :: "string \<Rightarrow> string list \<Rightarrow> string" where
  "join_with sep [] = []"
| "join_with sep [w] = w"
| "join_with sep (w # v # ws) = w @ sep @ join_with sep (v # ws)"

fun str_nat :: "nat \<Rightarrow> string" where
  "str_nat n =
     (if n < 10 then [''0123456789'' ! n]
      else str_nat (n div 10) @ [''0123456789'' ! (n mod 10)])"

declare str_nat.simps [simp del]

definition str_int :: "int \<Rightarrow> string" where
  "str_int i = (if i < 0 then CHR ''-'' # str_nat (nat (- i)) else str_nat (nat i))"

section \<open>Construction and style registries\<close>

definition initialize_styles :: "(string \<times> ParagraphStyle) list" where
  "initialize_styles =
     [(''title'', \<lparr>style_name = ''Title'', fontName = ''Helvetica-Bold'', fontSize = 14,
         alignment = 0, leading = 14, textColor = (0, 0, 0)\<rparr>),
      (''paragraph'', \<lparr>style_name = ''Paragraph'', fontName = ''Helvetica'', fontSize = 12,
         alignment = 4, leading = 12, textColor = (0, 0, 0)\<rparr>),
      (''page_number'', \<lparr>style_name = ''Page Number'', fontName = ''Helvetica'', fontSize = 12,
         alignment = 1, leading = 12, textColor = (0, 0, 0)\<rparr>)]"

definition initialize_table_styles :: "(string \<times> table_style_dict) list" where
  "initialize_table_styles =
     [(''table'', \<lparr>header = True, t_fontName = ''Helvetica-Bold'', t_fontSize = 8,
         t_textColor = (0, 0, 0), backgroundColor = (1, 1, 1), gridColor = (0, 0, 0),
         gridSize = 1, headerColor = (1/2, 1/2, 1/2), headerTextColor = (1, 1, 1)\<rparr>),
      (''no_header'', \<lparr>header = False, t_fontName = ''Helvetica-Bold'', t_fontSize = 8,
         t_textColor = (0, 0, 0), backgroundColor = (1, 1, 1), gridColor = (0, 0, 0),
         gridSize = 1, headerColor = (1, 1, 1), headerTextColor = (0, 0, 0)\<rparr>)]"

definition Document ::
  "string \<Rightarrow> real \<Rightarrow> real \<Rightarrow> real \<Rightarrow> real \<Rightarrow> real \<Rightarrow> real \<Rightarrow> document" where
  "Document nm w h mt ml mr mb =
     \<lparr>name = nm, width = w, height = h, page = [], margin_top = mt, margin_left = ml,
      margin_right = mr, margin_bottom = mb, current_height = 0, page_count = False,
      page_number = 1, style_list = initialize_styles,
      table_style_list = initialize_table_styles, template_images = []\<rparr>"





definition add_template_image :: "string \<Rightarrow> template_image \<Rightarrow> document \<Rightarrow> document" where
  "add_template_image nm img d = d\<lparr>template_images := AList.update nm img (template_images d)\<rparr>"


section \<open>Flow cursor and page lifecycle\<close>

definition add_space :: "real \<Rightarrow> document \<Rightarrow> document" where
  "add_space h d = d\<lparr>current_height := current_height d + h\<rparr>"

definition toggle_page_count :: "int option \<Rightarrow> bool option \<Rightarrow> document \<Rightarrow> document" where
  "toggle_page_count pn st d =
     d\<lparr>page_count := (case st of None \<Rightarrow> \<not> page_count d | Some b \<Rightarrow> b),
       page_number := (case pn of None \<Rightarrow> page_number d | Some n \<Rightarrow> n)\<rparr>"

definition add_page_number :: "env \<Rightarrow> document \<Rightarrow> document result" where
  "add_page_number E d =
     (if page_count d then
        (case map_of (style_list d) ''page_number'' of
           None \<Rightarrow> Raise KeyError d
         | Some st \<Rightarrow>
             (let page_number_text = Paragraph (str_int (page_number d)) st;
                  (w_title, h_title) = wrap_paragraph E page_number_text (width d) (height d);
                  x_position = (width d - w_title) / 2;
                  y_position = margin_bottom d / 2
              in Ok (d\<lparr>page := page d @ [DrawParagraph page_number_text x_position y_position]\<rparr>)))
      else Ok d)"

definition set_absolute_positions ::
  "document \<Rightarrow> string \<Rightarrow> string \<Rightarrow> real \<Rightarrow> real \<Rightarrow> real \<Rightarrow> real \<Rightarrow> real \<times> real" where
  "set_absolute_positions d axisx axisy img_width img_height posx posy =
     (let left_margin =
            (if axisx = ''right'' then width d - img_width - posx
             else if axisx = ''center'' then (width d - img_width) / 2 + posx
             else posx);
          bottom_margin =
            (if axisy = ''bottom'' then posy
             else if axisy = ''center'' then (height d - img_height) / 2 - posy
             else height d - img_height - posy)
      in (left_margin, bottom_margin))"

text \<open>
  \<open>new_page\<close>, \<open>add_image\<close> and \<open>verify_page_break\<close> call each other: \<open>new_page\<close> replays the
  template images through \<open>add_image\<close>, which starts with \<open>verify_page_break\<close>, which may
  call \<open>new_page\<close>. The knot is tied through the parameter \<open>np\<close>, the \<open>new_page\<close> that the
  callee reaches; \<open>new_page\<close> itself recurses on the nesting depth still allowed.
\<close>

definition verify_page_break_with ::
  "(document \<Rightarrow> document result) \<Rightarrow> document \<Rightarrow> document result" where
  "verify_page_break_with np d =
     (if current_height d + margin_top d + margin_bottom d > height d then np d else Ok d)"

definition add_image_with ::
  "env \<Rightarrow> (document \<Rightarrow> document result) \<Rightarrow> string \<Rightarrow> real \<Rightarrow> real \<Rightarrow> real \<Rightarrow> string \<Rightarrow>
   real \<Rightarrow> real \<Rightarrow> string \<Rightarrow> string \<Rightarrow> document \<Rightarrow> document result" where
  "add_image_with E np file size_proportions wfac hfac position posx posy axisx axisy d0 =
     and_then (verify_page_break_with np d0) (\<lambda>d.
       if size_proportions \<le> 0 \<or> wfac \<le> 0 \<or> hfac \<le> 0 then Raise ValueError d
       else if position \<notin> set [''center'', ''absolute'', ''default''] then Raise ValueError d
       else
         (case image_size E file of
            None \<Rightarrow> Raise FileNotFoundError d
          | Some (w0, h0) \<Rightarrow>
              (let img_width = w0 * (size_proportions * wfac);
                   img_height = h0 * (size_proportions * hfac);
                   (left_margin, bottom_margin) =
                     (if position = ''center'' then
                        (width d / 2 - img_width / 2,
                         height d - margin_top d - current_height d - img_height)
                      else if position = ''absolute'' then
                        set_absolute_positions d axisx axisy img_width img_height posx posy
                      else
                        (margin_left d,
                         height d - margin_top d - current_height d - img_height))
               in Ok (d\<lparr>page := page d @ [DrawImage file left_margin bottom_margin img_width img_height],
                        current_height := current_height d + img_height\<rparr>))))"

definition replay_template ::
  "env \<Rightarrow> (document \<Rightarrow> document result) \<Rightarrow> string \<times> template_image \<Rightarrow> document \<Rightarrow>
   document result" where
  "replay_template E np entry d =
     (let img = snd entry
      in add_image_with E np (i_file img) (i_size_proportions img) (i_width img) (i_height img)
           ''absolute'' (i_posx img) (i_posy img) (i_axisx img) (i_axisy img) d)"

primrec new_page :: "env \<Rightarrow> nat \<Rightarrow> document \<Rightarrow> document result" where
  "new_page E 0 = (\<lambda>d. Raise OutOfFuel d)"
| "new_page E (Suc n) = (\<lambda>d.
     and_then (add_page_number E d) (\<lambda>d1.
     and_then (for_each (replay_template E (new_page E n)) (template_images d1) d1) (\<lambda>d2.
       Ok (d2\<lparr>page := page d2 @ [SaveState, ShowPage],
              current_height := 0,
              page_number := (if page_count d2 then page_number d2 + 1 else page_number d2)\<rparr>))))"

definition verify_page_break :: "env \<Rightarrow> nat \<Rightarrow> document \<Rightarrow> document result" where
  "verify_page_break E n d = verify_page_break_with (new_page E n) d"

definition add_image ::
  "env \<Rightarrow> nat \<Rightarrow> string \<Rightarrow> real \<Rightarrow> real \<Rightarrow> real \<Rightarrow> string \<Rightarrow> real \<Rightarrow> real \<Rightarrow> string \<Rightarrow>
   string \<Rightarrow> document \<Rightarrow> document result" where
  "add_image E n file size_proportions wfac hfac position posx posy axisx axisy d =
     add_image_with E (new_page E n) file size_proportions wfac hfac position posx posy
       axisx axisy d"


section \<open>Text flow: \<open>add_section\<close>\<close>

text \<open>
  The \<open>while not sent\<close> loop is \<open>section_loop\<close>; its variables \<open>text\<close>, \<open>has_split\<close> and
  \<open>pointer\<close> are its arguments. \<open>pointer\<close> starts at \<open>len(text.split(' ')) - 1\<close>, which is at
  least 0, and is decremented only when positive, so it is a natural number.
\<close>

fun add_section :: "env \<Rightarrow> nat \<Rightarrow> string \<Rightarrow> string \<Rightarrow> document \<Rightarrow> document result"
and section_loop ::
  "env \<Rightarrow> nat \<Rightarrow> string \<Rightarrow> string \<Rightarrow> bool \<Rightarrow> nat \<Rightarrow> document \<Rightarrow> document result"
where
  "add_section E 0 text style d = Raise OutOfFuel d"
| "add_section E (Suc n) text style d =
     (if map_of (style_list d) style = None then Raise ValueError d
      else and_then (verify_page_break E n d) (\<lambda>d1.
             section_loop E n text style False (length (split_on CHR '' '' text) - 1) d1))"
| "section_loop E 0 text style has_split pointer d = Raise OutOfFuel d"
| "section_loop E (Suc n) text style has_split pointer d =
     (case map_of (style_list d) style of
        None \<Rightarrow> Raise KeyError d
      | Some st \<Rightarrow>
          (let title = Paragraph text st;
               (w_title, h_title) =
                 wrap_paragraph E title (width d - margin_left d - margin_right d) (height d);
               page_break_needed =
                 current_height d + margin_top d + margin_bottom d + h_title > height d
           in if \<not> page_break_needed then
                (let d1 = d\<lparr>page := page d @
                             [DrawParagraph title (margin_left d)
                                (height d - margin_top d - current_height d - h_title)],
                           current_height := current_height d + h_title\<rparr>
                 in if has_split then
                      (let new_text =
                             join_with '' '' (drop (pointer + 1) (split_on CHR '' '' text))
                       in and_then (new_page E n d1) (\<lambda>d2. add_section E n new_text style d2))
                    else Ok d1)
              else if pointer > 0 then
                section_loop E n (join_with '' '' (take pointer (split_on CHR '' '' text)))
                  style True (pointer - 1) d
              else
                and_then (new_page E n d) (\<lambda>d1.
                  section_loop E n text style False
                    (length (split_on CHR '' '' text) - 1) d1)))"




section \<open>Tables: \<open>add_table\<close> over a store of row objects\<close>

text \<open>
  The rows of a table are Python list objects that the caller still holds, so they live in
  a store: a row object is an address, the index of its cells in the store. The outer list
  is only ever read, sliced and rebuilt, so it is the list of its rows' addresses. A
  well-formed \<open>data\<close> holds addresses of the store only (a Python reference never dangles).
\<close>

type_synonym heap = "cell list list"

type_synonym world = "document \<times> heap"

definition deref :: "heap \<Rightarrow> nat \<Rightarrow> cell list" where
  "deref h a = (if a < length h then h ! a else [])"

definition alloc :: "heap \<Rightarrow> cell list \<Rightarrow> nat \<times> heap" where
  "alloc h r = (length h, h @ [r])"

definition on_doc :: "(document \<Rightarrow> document result) \<Rightarrow> world \<Rightarrow> world result" where
  "on_doc f s =
     (case f (fst s) of Ok d \<Rightarrow> Ok (d, snd s) | Raise e d \<Rightarrow> Raise e (d, snd s))"

text \<open>
  \<open>[row[:] for row in data]\<close>: a new list object for every row, with the same cells. The
  same function is \<open>deepcopy(data)\<close> at its one call site: the rows it is given are the
  pairwise distinct objects just made by the comprehension, so each is copied once, and
  a cell is an immutable value.
\<close>

fun copy_rows :: "nat list \<Rightarrow> heap \<Rightarrow> nat list \<times> heap" where
  "copy_rows [] h = ([], h)"
| "copy_rows (a # as) h =
     (let (b, h1) = alloc h (deref h a);
          (bs, h2) = copy_rows as h1
      in (b # bs, h2))"

fun cell_str :: "env \<Rightarrow> cell \<Rightarrow> string" where
  "cell_str E (Raw s) = s"
| "cell_str E (Wrapped p) = str_paragraph E p"

definition style_header :: "table_style_dict \<Rightarrow> ParagraphStyle" where
  "style_header tsd =
     \<lparr>style_name = ''Header'', fontName = t_fontName tsd, fontSize = t_fontSize tsd,
      alignment = 1, leading = t_fontSize tsd + 2, textColor = headerTextColor tsd\<rparr>"

definition style_text :: "table_style_dict \<Rightarrow> ParagraphStyle" where
  "style_text tsd =
     \<lparr>style_name = ''Table'', fontName = t_fontName tsd, fontSize = t_fontSize tsd,
      alignment = 1, leading = t_fontSize tsd + 2, textColor = t_textColor tsd\<rparr>"

text \<open>
  The two nested \<open>for\<close> loops of the \<open>wrap\<close> branch: for row \<open>i\<close>, every cell \<open>j\<close> of
  \<open>data_send[i]\<close> is overwritten by \<open>Paragraph(str(data[i][j]), style)\<close>, with the header
  style for row 0 of a table that has a header; the inner loop, over all cells of the
  row, is one update of the row object.
\<close>

definition wrap_cell :: "env \<Rightarrow> table_style_dict \<Rightarrow> nat \<Rightarrow> cell \<Rightarrow> cell" where
  "wrap_cell E tsd i c =
     Wrapped (Paragraph (cell_str E c)
       (if i = 0 \<and> header tsd then style_header tsd else style_text tsd))"

definition wrap_row ::
  "env \<Rightarrow> table_style_dict \<Rightarrow> nat list \<Rightarrow> nat list \<Rightarrow> nat \<Rightarrow> heap \<Rightarrow> heap" where
  "wrap_row E tsd data data_send i h =
     h[data_send ! i := map (wrap_cell E tsd i) (deref h (data ! i))]"

definition wrap_rows :: "env \<Rightarrow> table_style_dict \<Rightarrow> nat list \<Rightarrow> nat list \<Rightarrow> heap \<Rightarrow> heap" where
  "wrap_rows E tsd data data_send h =
     fold (wrap_row E tsd data data_send) [0..<length data] h"

text \<open>
  \<open>col_widths == 'uniform'\<close>: \<open>data[0]\<close> raises \<open>IndexError\<close> on an empty table, and the
  division raises \<open>ZeroDivisionError\<close> on an empty first row.
\<close>

definition uniform_widths :: "document \<Rightarrow> heap \<Rightarrow> nat list \<Rightarrow> col_widths \<Rightarrow> error + col_widths" where
  "uniform_widths d h data cw =
     (if cw = Uniform then
        (case data of
           [] \<Rightarrow> Inl IndexError
         | a # as \<Rightarrow>
             (let n_cols = length (deref h a);
                  total_width = width d - margin_left d - margin_right d
              in if n_cols = 0 then Inl ZeroDivisionError
                 else Inr (Width (total_width / real n_cols))))
      else Inr cw)"

fun add_table ::
  "env \<Rightarrow> nat \<Rightarrow> nat list \<Rightarrow> col_widths \<Rightarrow> string \<Rightarrow> string \<Rightarrow> bool \<Rightarrow> world \<Rightarrow> world result"
and table_loop ::
  "env \<Rightarrow> nat \<Rightarrow> nat list \<Rightarrow> nat list \<Rightarrow> col_widths \<Rightarrow> string \<Rightarrow> table_style_dict \<Rightarrow> string \<Rightarrow>
   bool \<Rightarrow> nat \<Rightarrow> world \<Rightarrow> world result"
where
  "add_table E 0 data0 cw style position wrap s = Raise OutOfFuel s"
| "add_table E (Suc n) data0 cw style position wrap (d0, h0) =
     and_then (on_doc (verify_page_break E n) (d0, h0)) (\<lambda>s1.
       (let d = fst s1;
            (data, h1) = copy_rows data0 (snd s1)
        in case map_of (table_style_list d) style of
             None \<Rightarrow> Raise KeyError (d, h1)
           | Some tsd \<Rightarrow>
               (let (data_send, h2) = copy_rows data h1;
                    h3 = (if wrap then wrap_rows E tsd data data_send h2 else h2)
                in case uniform_widths d h3 data cw of
                     Inl err \<Rightarrow> Raise err (d, h3)
                   | Inr cw1 \<Rightarrow>
                       table_loop E n data data_send cw1 style tsd position wrap
                         (length data) (d, h3))))"
| "table_loop E 0 data data_send cw style tsd position wrap pointer s = Raise OutOfFuel s"
| "table_loop E (Suc n) data data_send cw style tsd position wrap pointer (d, h) =
     (let rows = map (deref h) (take pointer data_send);
          (w_table, h_table) = wrap_table E rows cw tsd;
          total_current_height = margin_top d + current_height d + h_table;
          limit = height d - margin_bottom d
      in if total_current_height > limit then
           (if pointer > 1 then
              table_loop E n data data_send cw style tsd position wrap (pointer - 1) (d, h)
            else
              and_then (on_doc (new_page E n) (d, h)) (\<lambda>s1.
                table_loop E n data data_send cw style tsd position wrap (length data_send) s1))
         else
           (let left_margin =
                  (if position = ''default'' then margin_left d else (width d - w_table) / 2)
            in and_then
                 (if pointer = 1 \<and> length data > 1 \<and> header tsd then on_doc (new_page E n) (d, h)
                  else Ok (d\<lparr>page := page d @
                                [DrawTable rows cw tsd left_margin
                                   (height d - margin_top d - current_height d - h_table)],
                              current_height := current_height d + h_table\<rparr>, h))
                 (\<lambda>s1. if pointer \<noteq> length data_send then
                         (if header tsd then
                            add_table E n (data ! 0 # drop pointer data) cw style position wrap s1
                          else add_table E n (drop pointer data) cw style position wrap s1)
                       else Ok s1)))"

section \<open>A small document and its collaborators\<close>

text \<open>
  A concrete world on which the operations can be run: a text run takes one line of
  height 10 per non-empty word, a table one line of height 10 per row, and the only
  readable image is 40 by 30. The page is 200 by 100 with margins of 10, so 80 units of
  height are available on a page.
\<close>

definition example_env :: env where
  "example_env =
     \<lparr>wrap_paragraph = (\<lambda>p w h. case p of Paragraph t st \<Rightarrow>
          (w, 10 * real (length (filter (\<lambda>x. x \<noteq> []) (split_on CHR '' '' t))))),
      image_size = (\<lambda>f. if f = ''Example.png'' then Some (40, 30) else None),
      wrap_table = (\<lambda>rows cw tsd. (100, 10 * real (length rows))),
      str_paragraph = (\<lambda>p. case p of Paragraph t st \<Rightarrow> t)\<rparr>"

definition example_doc :: document where
  "example_doc = Document ''document.pdf'' 200 100 10 10 10 10"

section \<open>Invariants of the page lifecycle\<close>

text \<open>
  \<open>numbering d d'\<close>: from \<open>d\<close> to \<open>d'\<close> the canvas was only appended to, the numbering
  flag kept its value, and the page number advanced by the number of pages committed in
  between if numbering is enabled, and not at all otherwise.
\<close>

definition numbering :: "document \<Rightarrow> document \<Rightarrow> bool" where
  "numbering d d' \<longleftrightarrow>
     page_count d' = page_count d \<and>
     (\<exists>ops. page d' = page d @ ops \<and>
        page_number d' =
          page_number d + (if page_count d then int (count_list ops ShowPage) else 0))"

text \<open>
  \<open>evolves d d'\<close>: moreover the geometry and the three registries are those of \<open>d\<close>: only
  the canvas, the cursor and the page number moved.
\<close>

definition evolves :: "document \<Rightarrow> document \<Rightarrow> bool" where
  "evolves d d' \<longleftrightarrow>
     name d' = name d \<and> width d' = width d \<and> height d' = height d \<and>
     margin_top d' = margin_top d \<and> margin_left d' = margin_left d \<and>
     margin_right d' = margin_right d \<and> margin_bottom d' = margin_bottom d \<and>
     style_list d' = style_list d \<and> table_style_list d' = table_style_list d \<and>
     template_images d' = template_images d \<and> numbering d d'"

text \<open>
  \<open>wevolves s s'\<close>: the document evolved, and every row object of the store of \<open>s\<close> is
  still there with the same cells: the store was only extended.
\<close>

definition wevolves :: "world \<Rightarrow> world \<Rightarrow> bool" where
  "wevolves s s' \<longleftrightarrow> evolves (fst s) (fst s') \<and> (\<exists>hs. snd s' = snd s @ hs)"

text \<open>
  What \<open>add_page_number\<close> draws for \<open>d\<close>, and what placing a template image in absolute
  mode draws on the page of \<open>d\<close> (nothing when the file cannot be read).
\<close>

definition page_number_ops :: "env \<Rightarrow> document \<Rightarrow> canvas_op list" where
  "page_number_ops E d =
     (if page_count d then
        (case map_of (style_list d) ''page_number'' of
           None \<Rightarrow> []
         | Some st \<Rightarrow>
             (let p = Paragraph (str_int (page_number d)) st
              in [DrawParagraph p ((width d - fst (wrap_paragraph E p (width d) (height d))) / 2)
                    (margin_bottom d / 2)]))
      else [])"

definition absolute_image_op :: "env \<Rightarrow> document \<Rightarrow> template_image \<Rightarrow> canvas_op option" where
  "absolute_image_op E d img =
     (case image_size E (i_file img) of
        None \<Rightarrow> None
      | Some (w0, h0) \<Rightarrow>
          (let img_width = w0 * (i_size_proportions img * i_width img);
               img_height = h0 * (i_size_proportions img * i_height img);
               (left_margin, bottom_margin) =
                 set_absolute_positions d (i_axisx img) (i_axisy img) img_width img_height
                   (i_posx img) (i_posy img)
           in Some (DrawImage (i_file img) left_margin bottom_margin img_width img_height)))"

definition example_watermark :: template_image where
  "example_watermark =
     \<lparr>i_file = ''Example.png'', i_size_proportions = 1/2, i_width = 1, i_height = 1,
      i_posx = 10, i_posy = 20, i_axisx = ''right'', i_axisy = ''top''\<rparr>"

definition example_numbered :: document where
  "example_numbered =
     add_template_image ''watermark'' example_watermark (toggle_page_count None None example_doc)"

section \<open>Sequences of calls on a document\<close>





definition example_rows :: heap where
  "example_rows =
     [[Raw ''H1'', Raw ''H2''], [Raw ''r1'', Raw ''r2''], [Raw ''r3'', Raw ''r4''],
      [Raw ''r5'', Raw ''r6'']]"

(*DEFS-END*)

section \<open>Reserving space\<close>

text \<open>
  C8 (as amended). \<open>add_space\<close> raises no error and adds its argument to the cursor
  whatever its sign; nothing is drawn. A zero height leaves the document as it was, and a
  negative height moves the cursor back by that amount: it is not a no-op.
\<close>

theorem add_space_adds:
  "current_height (add_space h d) = current_height d + h \<and>
   page (add_space h d) = page d \<and>
   (h = 0 \<longrightarrow> add_space h d = d) \<and>
   (h < 0 \<longrightarrow> current_height (add_space h d) < current_height d)"
  by (simp add: add_space_def)

theorem add_space_adds_witness:
  "current_height (add_space (- 5) example_doc) < current_height example_doc \<and>
   add_space 0 example_doc = example_doc"
  using add_space_adds [of "- 5" example_doc] add_space_adds [of 0 example_doc]
  by simp

text \<open>The claim as stated fails at a height of -5: the cursor moves from 0 to -5.\<close>

theorem add_space_negative_counterexample:
  "current_height (add_space (- 5) example_doc) = - 5 \<and> current_height example_doc = 0"
  by (simp add: add_space_def example_doc_def Document_def)

section \<open>What every operation preserves\<close>

lemma numbering_refl: "numbering d d"
  by (simp add: numbering_def)

lemma numbering_trans: "numbering a b \<Longrightarrow> numbering b c \<Longrightarrow> numbering a c"
  unfolding numbering_def by (auto simp: algebra_simps)

lemma evolves_refl: "evolves d d"
  by (simp add: evolves_def numbering_refl)

lemma evolves_trans: "evolves a b \<Longrightarrow> evolves b c \<Longrightarrow> evolves a c"
  unfolding evolves_def using numbering_trans by auto

lemma evolves_and_then:
  assumes "evolves d (state_of r)"
    and "\<And>s1. r = Ok s1 \<Longrightarrow> evolves s1 (state_of (f s1))"
  shows "evolves d (state_of (and_then r f))"
  using assms by (cases r) (auto intro: evolves_trans)

lemma evolves_for_each:
  assumes "\<And>x s. evolves s (state_of (f x s))"
  shows "evolves s (state_of (for_each f xs s))"
proof (induction xs arbitrary: s)
  case Nil
  show ?case by (simp add: evolves_refl)
next
  case (Cons x xs)
  show ?case
    by (simp, rule evolves_and_then) (auto intro: assms Cons.IH)
qed

lemma evolves_draw:
  "op \<noteq> ShowPage \<Longrightarrow> evolves d (d\<lparr>page := page d @ [op], current_height := c\<rparr>)"
  "op \<noteq> ShowPage \<Longrightarrow> evolves d (d\<lparr>page := page d @ [op]\<rparr>)"
  by (simp_all add: evolves_def numbering_def)

lemma evolves_add_page_number: "evolves d (state_of (add_page_number E d))"
  by (auto simp: add_page_number_def Let_def evolves_refl evolves_draw split: option.splits prod.splits)

lemma evolves_verify_with:
  assumes "\<And>d. evolves d (state_of (np d))"
  shows "evolves d (state_of (verify_page_break_with np d))"
  using assms by (simp add: verify_page_break_with_def evolves_refl)

lemma evolves_add_image_with:
  assumes "\<And>d. evolves d (state_of (np d))"
  shows "evolves d (state_of (add_image_with E np file sp wfac hfac pos px py ax ay d))"
  unfolding add_image_with_def
  by (rule evolves_and_then, rule evolves_verify_with, rule assms)
     (auto simp: Let_def evolves_refl evolves_draw split: option.splits prod.splits)

lemma evolves_new_page: "evolves d (state_of (new_page E n d))"
proof (induction n arbitrary: d)
  case 0
  show ?case by (simp add: evolves_refl)
next
  case (Suc n)
  show ?case
    apply simp
    apply (rule evolves_and_then, rule evolves_add_page_number)
    apply (rule evolves_and_then, rule evolves_for_each)
     apply (simp add: replay_template_def Let_def)
     apply (rule evolves_add_image_with, rule Suc.IH)
    apply (simp add: evolves_def numbering_def)
    done
qed

lemma evolves_verify: "evolves d (state_of (verify_page_break E n d))"
  unfolding verify_page_break_def by (rule evolves_verify_with, rule evolves_new_page)

lemma evolves_step_then:
  assumes "evolves d d1" and "evolves d1 (state_of r)"
    and "\<And>s1. r = Ok s1 \<Longrightarrow> evolves s1 (state_of (f s1))"
  shows "evolves d (state_of (and_then r f))"
  by (rule evolves_trans [OF assms(1)], rule evolves_and_then, rule assms(2), rule assms(3))


lemma wevolves_refl: "wevolves s s"
  by (simp add: wevolves_def evolves_refl)

lemma wevolves_trans: "wevolves a b \<Longrightarrow> wevolves b c \<Longrightarrow> wevolves a c"
  unfolding wevolves_def by (auto intro: evolves_trans)

lemma wevolves_and_then:
  assumes "wevolves s (state_of r)"
    and "\<And>s1. r = Ok s1 \<Longrightarrow> wevolves s1 (state_of (f s1))"
  shows "wevolves s (state_of (and_then r f))"
  using assms by (cases r) (auto intro: wevolves_trans)

lemma wevolves_step_then:
  assumes "wevolves s s1" and "wevolves s1 (state_of r)"
    and "\<And>s2. r = Ok s2 \<Longrightarrow> wevolves s2 (state_of (f s2))"
  shows "wevolves s (state_of (and_then r f))"
  by (rule wevolves_trans [OF assms(1)], rule wevolves_and_then, rule assms(2), rule assms(3))

lemma state_of_on_doc: "state_of (on_doc f s) = (state_of (f (fst s)), snd s)"
  by (simp add: on_doc_def split: result.split)

lemma wevolves_on_doc:
  "evolves (fst s) (state_of (f (fst s))) \<Longrightarrow> wevolves s (state_of (on_doc f s))"
  by (simp add: state_of_on_doc wevolves_def)

lemma copy_rows_spec:
  "copy_rows as h = (bs, h') \<Longrightarrow>
     bs = [length h ..< length h + length as] \<and>
     (\<exists>rows. h' = h @ rows \<and> length rows = length as \<and>
        ((\<forall>a \<in> set as. a < length h) \<longrightarrow> rows = map (deref h) as))"
proof (induction as arbitrary: h bs h')
  case Nil
  then show ?case by simp
next
  case (Cons a as)
  obtain bs1 h1 where c: "copy_rows as (h @ [deref h a]) = (bs1, h1)"
    by (cases "copy_rows as (h @ [deref h a])") auto
  from Cons.prems c have bs: "bs = length h # bs1" and h': "h' = h1"
    by (auto simp: alloc_def)
  from Cons.IH [OF c] obtain rows where
    1: "bs1 = [length (h @ [deref h a]) ..< length (h @ [deref h a]) + length as]"
    and 2: "h1 = (h @ [deref h a]) @ rows" and 3: "length rows = length as"
    and 4: "(\<forall>x \<in> set as. x < length (h @ [deref h a])) \<longrightarrow> rows = map (deref (h @ [deref h a])) as"
    by blast
  have "[length h ..< length h + length (a # as)] =
          length h # [Suc (length h) ..< length h + length (a # as)]"
    by (rule upt_conv_Cons) simp
  then have "length h # bs1 = [length h ..< length h + length (a # as)]"
    using 1 by (simp del: upt_Suc)
  moreover have "h1 = h @ (deref h a # rows)" using 2 by simp
  moreover have "(\<forall>x \<in> set (a # as). x < length h) \<longrightarrow> deref h a # rows = map (deref h) (a # as)"
  proof
    assume v: "\<forall>x \<in> set (a # as). x < length h"
    then have "rows = map (deref (h @ [deref h a])) as" using 4 by auto
    also have "\<dots> = map (deref h) as"
      using v by (auto simp: deref_def nth_append)
    finally show "deref h a # rows = map (deref h) (a # as)" by simp
  qed
  ultimately show ?case using bs h' 3 by auto
qed

lemma wrap_rows_frame:
  assumes "\<forall>i < length data. k \<le> data_send ! i"
  shows "take k (wrap_rows E tsd data data_send h) = take k h"
proof -
  have "\<And>h. \<forall>i \<in> set is. k \<le> data_send ! i \<Longrightarrow>
          take k (fold (wrap_row E tsd data data_send) is h) = take k h" for "is"
  proof (induction "is")
    case Nil
    show ?case by simp
  next
    case (Cons i "is")
    then show ?case by (simp add: wrap_row_def)
  qed
  then show ?thesis unfolding wrap_rows_def using assms by simp
qed

lemma wrap_rows_length: "length (wrap_rows E tsd data data_send h) = length h"
proof -
  have "length (fold (wrap_row E tsd data data_send) is h) = length h" for "is"
    by (induction "is" arbitrary: h) (simp_all add: wrap_row_def)
  then show ?thesis by (simp add: wrap_rows_def)
qed

lemma prepare_frame:
  assumes "copy_rows data0 h0 = (data, h1)" and "copy_rows data h1 = (data_send, h2)"
  shows "\<exists>hs. (if wrap then wrap_rows E tsd data data_send h2 else h2) = h0 @ hs"
proof -
  from copy_rows_spec [OF assms(1)] obtain r1 where h1: "h1 = h0 @ r1" by blast
  from copy_rows_spec [OF assms(2)] obtain r2 where
    ds: "data_send = [length h1 ..< length h1 + length data]" and h2: "h2 = h1 @ r2"
    by blast
  let ?h3 = "if wrap then wrap_rows E tsd data data_send h2 else h2"
  have "\<forall>i < length data. length h0 \<le> data_send ! i"
    using ds h1 by simp
  then have "take (length h0) (wrap_rows E tsd data data_send h2) = take (length h0) h2"
    by (rule wrap_rows_frame)
  then have "take (length h0) ?h3 = h0" using h1 h2 by simp
  then have "?h3 = h0 @ drop (length h0) ?h3"
    by (metis append_take_drop_id)
  then show ?thesis by blast
qed

lemma wevolves_add_table_both:
  "(\<forall>data0 cw style position wrap s.
      wevolves s (state_of (add_table E n data0 cw style position wrap s))) \<and>
   (\<forall>data data_send cw style tsd position wrap pointer s.
      wevolves s (state_of (table_loop E n data data_send cw style tsd position wrap pointer s)))"
proof (induction n)
  case 0
  show ?case by (simp add: wevolves_refl)
next
  case (Suc n)
  have A: "\<And>data0 cw style position wrap s.
      wevolves s (state_of (add_table E n data0 cw style position wrap s))"
    and B: "\<And>data data_send cw style tsd position wrap pointer s.
      wevolves s (state_of (table_loop E n data data_send cw style tsd position wrap pointer s))"
    using Suc by blast+
  have NP: "wevolves s (state_of (on_doc (new_page E n) s))" for s
    by (rule wevolves_on_doc, rule evolves_new_page)
  show ?case
  proof (intro conjI allI)
    fix data0 cw style position wrap and s :: world
    have VP: "wevolves s (state_of (on_doc (verify_page_break E n) s))"
      by (rule wevolves_on_doc, rule evolves_verify)
    have body: "wevolves s1
        (state_of (let d = fst s1; (data, h1) = copy_rows data0 (snd s1)
        in case map_of (table_style_list d) style of
             None \<Rightarrow> Raise KeyError (d, h1)
           | Some tsd \<Rightarrow>
               (let (data_send, h2) = copy_rows data h1;
                    h3 = (if wrap then wrap_rows E tsd data data_send h2 else h2)
                in case uniform_widths d h3 data cw of
                     Inl err \<Rightarrow> Raise err (d, h3)
                   | Inr cw1 \<Rightarrow>
                       table_loop E n data data_send cw1 style tsd position wrap
                         (length data) (d, h3))))" for s1
    proof -
      obtain data h1 where c1: "copy_rows data0 (snd s1) = (data, h1)"
        by (cases "copy_rows data0 (snd s1)") auto
      obtain data_send h2 where c2: "copy_rows data h1 = (data_send, h2)"
        by (cases "copy_rows data h1") auto
      from copy_rows_spec [OF c1] have P1: "wevolves s1 (fst s1, h1)"
        by (auto simp: wevolves_def evolves_refl)
      have P3: "wevolves s1 (fst s1, if wrap then wrap_rows E tsd data data_send h2 else h2)"
        for tsd
        using prepare_frame [OF c1 c2, of wrap E tsd]
        by (auto simp: wevolves_def evolves_refl)
      show ?thesis
        using c1 c2 P1 P3
        by (auto simp: Let_def split: option.split sum.split intro: wevolves_trans [OF _ B])
    qed
    show "wevolves s (state_of (add_table E (Suc n) data0 cw style position wrap s))"
    proof (cases s)
      case (Pair d0 h0)
      show ?thesis
        unfolding Pair add_table.simps
        by (rule wevolves_and_then, rule VP [unfolded Pair], rule body)
    qed
  next
    fix data data_send cw style position wrap pointer and tsd :: table_style_dict and s :: world
    obtain d h where s: "s = (d, h)" by (cases s)
    obtain w ht where wh:
      "wrap_table E (map (deref h) (take pointer data_send)) cw tsd = (w, ht)"
      by (cases "wrap_table E (map (deref h) (take pointer data_send)) cw tsd") auto
    have D: "wevolves (d, h) (d\<lparr>page := page d @ [DrawTable rows cw tsd x y],
               current_height := c\<rparr>, h)" for rows x y c
      by (simp add: wevolves_def evolves_draw)
    have F1: "wevolves (d, h) (state_of (add_table E n X cw style position wrap
               (d\<lparr>page := page d @ [DrawTable rows cw tsd x y],
                  current_height := c\<rparr>, h)))" for X rows x y c
      by (rule wevolves_trans [OF D], rule A)
    have F2: "wevolves (d, h) (state_of (and_then (on_doc (new_page E n) (d, h)) f))"
      if "\<And>s1. wevolves s1 (state_of (f s1))" for f
      by (rule wevolves_and_then, rule NP, rule that)
    show "wevolves s (state_of (table_loop E (Suc n) data data_send cw style tsd position wrap pointer s))"
      unfolding s using wh
      by (auto simp: Let_def D F1 A B wevolves_refl intro!: F2)
  qed
qed

section \<open>Page finalization\<close>

lemma not_ok_and_then: "\<not> is_ok r \<Longrightarrow> \<not> is_ok (and_then r f)"
  by (cases r) auto

lemma and_then_Ok_D: "and_then r f = Ok s' \<Longrightarrow> \<exists>s1. r = Ok s1 \<and> f s1 = Ok s'"
  by (cases r) auto

lemma add_page_number_cases:
  "add_page_number E d = Ok (d\<lparr>page := page d @ page_number_ops E d\<rparr>) \<or>
   (\<exists>e. add_page_number E d = Raise e d)"
  by (auto simp: add_page_number_def page_number_ops_def Let_def split: option.split prod.split)

lemma add_image_with_not_ok:
  "current_height d + margin_top d + margin_bottom d > height d \<Longrightarrow> \<not> is_ok (np d) \<Longrightarrow>
   \<not> is_ok (add_image_with E np file sp wfac hfac position posx posy axisx axisy d)"
  unfolding add_image_with_def
  by (rule not_ok_and_then) (simp add: verify_page_break_with_def)

lemma new_page_diverges:
  "current_height d + margin_top d + margin_bottom d > height d \<Longrightarrow>
   template_images d \<noteq> [] \<Longrightarrow> \<not> is_ok (new_page E n d)"
proof (induction n arbitrary: d)
  case 0
  show ?case by simp
next
  case (Suc n)
  obtain x xs where ts: "template_images d = x # xs"
    using Suc.prems(2) by (cases "template_images d") auto
  let ?d1 = "d\<lparr>page := page d @ page_number_ops E d\<rparr>"
  have "\<not> is_ok (new_page E n ?d1)"
    using Suc.prems by (intro Suc.IH) auto
  then have "\<not> is_ok (for_each (replay_template E (new_page E n)) (x # xs) ?d1)"
    using Suc.prems(1)
    by (simp add: replay_template_def Let_def add_image_with_not_ok not_ok_and_then)
  then have F: "\<not> is_ok (and_then (for_each (replay_template E (new_page E n))
                  (template_images ?d1) ?d1) f)" for f
    using ts by (simp add: not_ok_and_then)
  from add_page_number_cases [of E d] show ?case
  proof
    assume "add_page_number E d = Ok ?d1"
    then show ?thesis using F by simp
  next
    assume "\<exists>e. add_page_number E d = Raise e d"
    then show ?thesis by auto
  qed
qed

lemma add_image_with_Ok:
  assumes "add_image_with E np file sp wfac hfac position posx posy axisx axisy d = Ok d'"
  shows "\<exists>d1 w0 h0 x y. verify_page_break_with np d = Ok d1 \<and>
           image_size E file = Some (w0, h0) \<and> 0 < sp \<and> 0 < wfac \<and> 0 < hfac \<and>
           position \<in> {''center'', ''absolute'', ''default''} \<and>
           (x, y) = (if position = ''center'' then
                       (width d1 / 2 - w0 * (sp * wfac) / 2,
                        height d1 - margin_top d1 - current_height d1 - h0 * (sp * hfac))
                     else if position = ''absolute'' then
                       set_absolute_positions d1 axisx axisy (w0 * (sp * wfac))
                         (h0 * (sp * hfac)) posx posy
                     else (margin_left d1,
                           height d1 - margin_top d1 - current_height d1 - h0 * (sp * hfac))) \<and>
           d' = d1\<lparr>page := page d1 @ [DrawImage file x y (w0 * (sp * wfac)) (h0 * (sp * hfac))],
                   current_height := current_height d1 + h0 * (sp * hfac)\<rparr>"
proof -
  from assms obtain d1 where v: "verify_page_break_with np d = Ok d1"
    unfolding add_image_with_def by (cases "verify_page_break_with np d") auto
  with assms show ?thesis
    by (auto simp: add_image_with_def Let_def split: if_splits option.splits prod.splits)
qed

lemma absolute_image_op_geometry:
  "width d' = width d \<Longrightarrow> height d' = height d \<Longrightarrow>
   absolute_image_op E d' img = absolute_image_op E d img"
  by (simp add: absolute_image_op_def set_absolute_positions_def Let_def split: option.split)

lemma replay_trace:
  assumes "for_each (replay_template E (new_page E n)) ts d = Ok d2"
    and "ts \<noteq> [] \<longrightarrow> template_images d \<noteq> []"
  shows "\<exists>ops c. d2 = d\<lparr>page := page d @ ops, current_height := c\<rparr> \<and>
           map Some ops = map (absolute_image_op E d \<circ> snd) ts"
  using assms
proof (induction ts arbitrary: d)
  case Nil
  then have "d2 = d\<lparr>page := page d @ [], current_height := current_height d\<rparr>" by simp
  then show ?case by fastforce
next
  case (Cons x xs)
  let ?img = "snd x"
  from Cons.prems(1) obtain d1 where
    r: "replay_template E (new_page E n) x d = Ok d1"
    and rest: "for_each (replay_template E (new_page E n)) xs d1 = Ok d2"
    by (auto dest: and_then_Ok_D)
  have no: "\<not> current_height d + margin_top d + margin_bottom d > height d"
  proof
    assume o: "current_height d + margin_top d + margin_bottom d > height d"
    have "\<not> is_ok (new_page E n d)"
      using o Cons.prems(2) by (intro new_page_diverges) auto
    then have "\<not> is_ok (replay_template E (new_page E n) x d)"
      using o by (simp add: replay_template_def Let_def add_image_with_not_ok)
    with r show False by simp
  qed
  from r [unfolded replay_template_def Let_def, THEN add_image_with_Ok] no
  obtain w0 h0 px py where
    sz: "image_size E (i_file ?img) = Some (w0, h0)"
    and pos: "(px, py) = set_absolute_positions d (i_axisx ?img) (i_axisy ?img)
                 (w0 * (i_size_proportions ?img * i_width ?img))
                 (h0 * (i_size_proportions ?img * i_height ?img)) (i_posx ?img) (i_posy ?img)"
    and d1: "d1 = d\<lparr>page := page d @
                [DrawImage (i_file ?img) px py (w0 * (i_size_proportions ?img * i_width ?img))
                   (h0 * (i_size_proportions ?img * i_height ?img))],
              current_height := current_height d + h0 * (i_size_proportions ?img * i_height ?img)\<rparr>"
    by (auto simp: verify_page_break_with_def)
  have op: "absolute_image_op E d ?img =
              Some (DrawImage (i_file ?img) px py (w0 * (i_size_proportions ?img * i_width ?img))
                     (h0 * (i_size_proportions ?img * i_height ?img)))"
    using sz pos [symmetric] by (simp add: absolute_image_op_def Let_def)
  have "xs \<noteq> [] \<longrightarrow> template_images d1 \<noteq> []"
    using Cons.prems(2) d1 by simp
  from Cons.IH [OF rest this] obtain ops c where
    d2: "d2 = d1\<lparr>page := page d1 @ ops, current_height := c\<rparr>"
    and ops: "map Some ops = map (absolute_image_op E d1 \<circ> snd) xs"
    by blast
  have same: "absolute_image_op E d1 = absolute_image_op E d"
    using d1 by (intro ext absolute_image_op_geometry) auto
  let ?o = "DrawImage (i_file ?img) px py (w0 * (i_size_proportions ?img * i_width ?img))
              (h0 * (i_size_proportions ?img * i_height ?img))"
  have "d2 = d\<lparr>page := page d @ (?o # ops), current_height := c\<rparr>"
    by (simp add: d2 d1)
  moreover have "map Some (?o # ops) = map (absolute_image_op E d \<circ> snd) (x # xs)"
    using ops op same by simp
  ultimately show ?case by blast
qed

lemma new_page_trace:
  assumes "new_page E n d = Ok d'"
  shows "\<exists>ops. map Some ops = map (absolute_image_op E d \<circ> snd) (template_images d) \<and>
           d' = d\<lparr>page := page d @ page_number_ops E d @ ops @ [SaveState, ShowPage],
                  current_height := 0,
                  page_number := (if page_count d then page_number d + 1 else page_number d)\<rparr>"
proof -
  from assms obtain m where n: "n = Suc m" by (cases n) auto
  let ?d1 = "d\<lparr>page := page d @ page_number_ops E d\<rparr>"
  from assms n have a: "add_page_number E d = Ok ?d1"
    using add_page_number_cases [of E d] by auto
  with assms n obtain d2 where
    f: "for_each (replay_template E (new_page E m)) (template_images ?d1) ?d1 = Ok d2"
    and d': "d' = d2\<lparr>page := page d2 @ [SaveState, ShowPage], current_height := 0,
               page_number := (if page_count d2 then page_number d2 + 1 else page_number d2)\<rparr>"
    by (auto dest!: and_then_Ok_D)
  from replay_trace [OF f] obtain ops c where
    d2: "d2 = ?d1\<lparr>page := page ?d1 @ ops, current_height := c\<rparr>"
    and ops: "map Some ops = map (absolute_image_op E ?d1 \<circ> snd) (template_images ?d1)"
    by auto
  have same: "absolute_image_op E ?d1 = absolute_image_op E d"
    by (intro ext absolute_image_op_geometry) auto
  have "d' = d\<lparr>page := page d @ page_number_ops E d @ ops @ [SaveState, ShowPage],
                  current_height := 0,
                  page_number := (if page_count d then page_number d + 1 else page_number d)\<rparr>"
    by (simp add: d' d2)
  moreover have "map Some ops = map (absolute_image_op E d \<circ> snd) (template_images d)"
    using ops same by simp
  ultimately show ?thesis by blast
qed

section \<open>Page numbering\<close>

lemma is_ok_state: "is_ok r \<Longrightarrow> r = Ok (state_of r)"
  by (cases r) auto



lemma wevolves_add_table: "wevolves s (state_of (add_table E n data0 cw style position wrap s))"
  using wevolves_add_table_both by blast




lemma numbering_config:
  "page_count d' = page_count d \<Longrightarrow> page_number d' = page_number d \<Longrightarrow> page d' = page d \<Longrightarrow>
   numbering d d'"
  by (simp add: numbering_def)








section \<open>Images\<close>

lemma verify_page_break_Ok:
  assumes "verify_page_break_with (new_page E n) d = Ok d1"
  shows "current_height d1 =
           (if current_height d + margin_top d + margin_bottom d > height d then 0
            else current_height d)"
proof (cases "current_height d + margin_top d + margin_bottom d > height d")
  case True
  with assms have "new_page E n d = Ok d1" by (simp add: verify_page_break_with_def)
  from new_page_trace [OF this] have "current_height d1 = 0" by auto
  with True show ?thesis by simp
next
  case False
  with assms show ?thesis by (auto simp: verify_page_break_with_def)
qed

text \<open>
  C3 (as amended). A successful \<open>add_image\<close>, in any of its three modes, leaves the cursor
  at its value after the margin pre-check (0 if the pre-check finalized the page, the
  value before the call otherwise) plus the height of the image it drew. Absolute mode
  is no exception. The cursor is free of the template images only after a page
  finalization, which ends by resetting it to 0.
\<close>

theorem add_image_advances_cursor:
  "(add_image E n file sp wfac hfac position posx posy axisx axisy d = Ok d' \<longrightarrow>
      (\<exists>w0 h0 x y. image_size E file = Some (w0, h0) \<and>
         position \<in> {''center'', ''absolute'', ''default''} \<and>
         last (page d') = DrawImage file x y (w0 * (sp * wfac)) (h0 * (sp * hfac)) \<and>
         current_height d' =
           (if current_height d + margin_top d + margin_bottom d > height d then 0
            else current_height d) + h0 * (sp * hfac))) \<and>
   (new_page E n d = Ok d' \<longrightarrow> current_height d' = 0)"
proof (intro conjI impI)
  assume "add_image E n file sp wfac hfac position posx posy axisx axisy d = Ok d'"
  then have "add_image_with E (new_page E n) file sp wfac hfac position posx posy axisx axisy d
               = Ok d'"
    by (simp add: add_image_def)
  from add_image_with_Ok [OF this] obtain d1 w0 h0 x y where
    v: "verify_page_break_with (new_page E n) d = Ok d1"
    and sz: "image_size E file = Some (w0, h0)"
    and pos: "position \<in> {''center'', ''absolute'', ''default''}"
    and d': "d' = d1\<lparr>page := page d1 @ [DrawImage file x y (w0 * (sp * wfac)) (h0 * (sp * hfac))],
                   current_height := current_height d1 + h0 * (sp * hfac)\<rparr>"
    by blast
  have "last (page d') = DrawImage file x y (w0 * (sp * wfac)) (h0 * (sp * hfac))"
    by (simp add: d')
  moreover have "current_height d' =
           (if current_height d + margin_top d + margin_bottom d > height d then 0
            else current_height d) + h0 * (sp * hfac)"
    using verify_page_break_Ok [OF v] by (simp add: d')
  ultimately show "\<exists>w0 h0 x y. image_size E file = Some (w0, h0) \<and>
         position \<in> {''center'', ''absolute'', ''default''} \<and>
         last (page d') = DrawImage file x y (w0 * (sp * wfac)) (h0 * (sp * hfac)) \<and>
         current_height d' =
           (if current_height d + margin_top d + margin_bottom d > height d then 0
            else current_height d) + h0 * (sp * hfac)"
    using sz pos by blast
next
  assume "new_page E n d = Ok d'"
  from new_page_trace [OF this] show "current_height d' = 0" by auto
qed

theorem add_image_advances_cursor_witness:
  "current_height (state_of (add_image example_env 1 ''Example.png'' 2 1 1 ''center'' 0 0
      ''left'' ''top'' (add_space 20 example_doc))) = 20 + 30 * (2 * 1) \<and>
   current_height (state_of (add_image example_env 1 ''Example.png'' 1 1 1 ''default'' 0 0
      ''left'' ''top'' (add_space 90 example_doc))) = 0 + 30 * (1 * 1) \<and>
   current_height (state_of (new_page example_env 1 example_numbered)) = 0"
proof -
  let ?a = "add_image example_env 1 ''Example.png'' 2 1 1 ''center'' 0 0 ''left'' ''top''
              (add_space 20 example_doc)"
  let ?b = "add_image example_env 1 ''Example.png'' 1 1 1 ''default'' 0 0 ''left'' ''top''
              (add_space 90 example_doc)"
  have a: "?a = Ok (state_of ?a)" by (rule is_ok_state) code_simp
  have b: "?b = Ok (state_of ?b)" by (rule is_ok_state) code_simp
  have c: "new_page example_env 1 example_numbered =
             Ok (state_of (new_page example_env 1 example_numbered))"
    by (rule is_ok_state) code_simp
  have sz: "image_size example_env ''Example.png'' = Some (40, 30)"
    by (simp add: example_env_def)
  have g: "current_height (add_space 20 example_doc) = 20"
    "current_height (add_space 90 example_doc) = 90"
    "margin_top (add_space 20 example_doc) = 10" "margin_bottom (add_space 20 example_doc) = 10"
    "height (add_space 20 example_doc) = 100"
    "margin_top (add_space 90 example_doc) = 10" "margin_bottom (add_space 90 example_doc) = 10"
    "height (add_space 90 example_doc) = 100"
    by (simp_all add: add_space_def example_doc_def Document_def)
  from add_image_advances_cursor [of example_env 1 "''Example.png''" 2 1 1 "''center''" 0 0
      "''left''" "''top''" "add_space 20 example_doc" "state_of ?a"] a sz g
  have 1: "current_height (state_of ?a) = 20 + 30 * (2 * 1)" by auto
  from add_image_advances_cursor [of example_env 1 "''Example.png''" 1 1 1 "''default''" 0 0
      "''left''" "''top''" "add_space 90 example_doc" "state_of ?b"] b sz g
  have 2: "current_height (state_of ?b) = 0 + 30 * (1 * 1)" by auto
  from add_image_advances_cursor [of example_env 1 "''Example.png''" 1 1 1 "''default''" 0 0
      "''left''" "''top''" example_numbered "state_of (new_page example_env 1 example_numbered)"] c
  have 3: "current_height (state_of (new_page example_env 1 example_numbered)) = 0" by simp
  from 1 2 3 show ?thesis by simp
qed

text \<open>
  The claim as stated fails in absolute mode: with the cursor at 50, an absolute
  placement of the 40 by 30 image succeeds and leaves the cursor at 80.
\<close>

theorem add_image_absolute_counterexample:
  "is_ok (add_image example_env 1 ''Example.png'' 1 1 1 ''absolute'' 0 0 ''left'' ''top''
      (add_space 50 example_doc)) \<and>
   current_height (add_space 50 example_doc) = 50 \<and>
   current_height (state_of (add_image example_env 1 ''Example.png'' 1 1 1 ''absolute'' 0 0
      ''left'' ''top'' (add_space 50 example_doc))) = 80"
  by code_simp

section \<open>Failing calls\<close>






section \<open>Text that does not fit\<close>

text \<open>
  C1. The words after the cut are lost. With 30 units left on the page and one line of
  height 10 per word, \<open>A B C D E\<close> is cut after \<open>A B C\<close>; the page is finalized, and the text
  placed on the next page is the empty string, not \<open>D E\<close>: the loop has overwritten \<open>text\<close>
  with the prefix before it takes the remainder \<open>text.split(' ')[pointer+1:]\<close> from it.
\<close>

theorem add_section_loses_remainder:
  "add_section example_env 10 ''A B C D E'' ''paragraph'' (add_space 50 example_doc) =
     Ok ((add_space 50 example_doc)
          \<lparr>page :=
             [DrawParagraph
                (Paragraph ''A B C''
                   \<lparr>style_name = ''Paragraph'', fontName = ''Helvetica'', fontSize = 12,
                    alignment = 4, leading = 12, textColor = (0, 0, 0)\<rparr>) 10 10,
              SaveState, ShowPage,
              DrawParagraph
                (Paragraph []
                   \<lparr>style_name = ''Paragraph'', fontName = ''Helvetica'', fontSize = 12,
                    alignment = 4, leading = 12, textColor = (0, 0, 0)\<rparr>) 10 90],
           current_height := 0\<rparr>)"
  by code_simp

text \<open>
  C5. When not even the first word fits, the page is finalized and the loop goes on with
  the text it has shrunk to, the first word: on a full page, \<open>A B\<close> is placed as \<open>A\<close> alone
  on the next page, where both words would fit, and \<open>B\<close> is never drawn.
\<close>

theorem add_section_restarts_with_first_word:
  "add_section example_env 10 ''A B'' ''paragraph'' (add_space 80 example_doc) =
     Ok ((add_space 80 example_doc)
          \<lparr>page :=
             [SaveState, ShowPage,
              DrawParagraph
                (Paragraph ''A''
                   \<lparr>style_name = ''Paragraph'', fontName = ''Helvetica'', fontSize = 12,
                    alignment = 4, leading = 12, textColor = (0, 0, 0)\<rparr>) 10 80],
           current_height := 10\<rparr>)"
  by code_simp

section \<open>The caller's rows\<close>

lemma deref_append: "a < length h \<Longrightarrow> deref (h @ hs) a = deref h a"
  by (simp add: deref_def nth_append)

text \<open>
  C10. Whatever \<open>add_table\<close> does, and however far it gets, the store it leaves is the
  store it was given followed by new row objects: every row object that existed before
  the call has the cells it had, so the rows of the caller's \<open>data\<close> hold the same cell
  values as before, also when \<open>wrap\<close> is set and the table continues over several pages.
\<close>

theorem add_table_keeps_rows:
  "(\<exists>hs. snd (state_of (add_table E n data cw style position wrap s)) = snd s @ hs) \<and>
   ((\<forall>a \<in> set data. a < length (snd s)) \<longrightarrow>
      map (deref (snd (state_of (add_table E n data cw style position wrap s)))) data =
        map (deref (snd s)) data)"
proof -
  from wevolves_add_table [of s E n data cw style position wrap]
  obtain hs where hs: "snd (state_of (add_table E n data cw style position wrap s)) = snd s @ hs"
    by (auto simp: wevolves_def)
  then have "(\<forall>a \<in> set data. a < length (snd s)) \<longrightarrow>
      map (deref (snd (state_of (add_table E n data cw style position wrap s)))) data =
        map (deref (snd s)) data"
    by (simp add: deref_append)
  with hs show ?thesis by blast
qed

theorem add_table_keeps_rows_witness:
  "is_ok (add_table example_env 3 [0, 1, 2, 3] NoWidths ''table'' ''center'' True
       (example_doc, example_rows)) \<and>
   length (snd (state_of (add_table example_env 3 [0, 1, 2, 3] NoWidths ''table'' ''center''
       True (example_doc, example_rows)))) = 12 \<and>
   map (deref (snd (state_of (add_table example_env 3 [0, 1, 2, 3] NoWidths ''table'' ''center''
       True (example_doc, example_rows))))) [0, 1, 2, 3] = example_rows"
proof -
  let ?r = "add_table example_env 3 [0, 1, 2, 3] NoWidths ''table'' ''center'' True
       (example_doc, example_rows)"
  have v: "\<forall>a \<in> set [0, 1, 2, 3]. a < length (snd (example_doc, example_rows))"
    by (simp add: example_rows_def)
  have m: "map (deref (snd (example_doc, example_rows))) [0, 1, 2, 3] = example_rows"
    by code_simp
  have ok: "is_ok ?r" by code_simp
  have c: "length (snd (state_of ?r)) = 12" by code_simp
  from add_table_keeps_rows [of example_env 3 "[0, 1, 2, 3]" NoWidths "''table''" "''center''"
      True "(example_doc, example_rows)"] v m
  have "map (deref (snd (state_of ?r))) [0, 1, 2, 3] = example_rows"
    by (metis (no_types, lifting))
  with ok c show ?thesis by blast
qed

end
